theory Spec2Isabelle
  imports Main
begin

section \<open>Data model of server.py\<close>

text \<open>
  The server keeps one module-level dictionary, \<^verbatim>\<open>search_results = {}\<close>, from request
  identities to strings. A pending marker, a completed result and an error message are all
  plain strings in it. Python strings are modelled as \<^typ>\<open>string\<close>.

  The framework hands every tool call a \<^verbatim>\<open>Context\<close>. The code reads its
  \<^verbatim>\<open>request_id\<close> and awaits its three notification methods \<^verbatim>\<open>info\<close>,
  \<^verbatim>\<open>report_progress\<close> and \<^verbatim>\<open>error\<close>.
\<close>

record Context =
  request_id :: string

datatype notification = Info string | Progress nat | Error string

text \<open>
  The two coroutines handed to \<^verbatim>\<open>asyncio.create_task\<close>, with their arguments in the
  order of the source.
\<close>

datatype background =
    PerformSearch string string string Context
  | PerformOrder string string string Context

text \<open>
  The effects a coroutine of the server performs, in program order: an assignment
  \<^verbatim>\<open>search_results[k] = v\<close>, an awaited notification on a context, and
  \<^verbatim>\<open>asyncio.create_task\<close>.
\<close>

datatype effect =
    StoreWrite string string
  | Send Context notification
  | CreateTask background

text \<open>
  Modelled from the spec: \<^verbatim>\<open>run_browser_agent\<close> is imported from the module
  \<^verbatim>\<open>browser\<close>, which is not among the sources. The spec gives its interface:
  it takes a task description and a step callback, invokes the callback zero or more times
  with arguments the core only counts, and then returns a result text or raises with a
  descriptive error. One run of it is therefore a script: callback invocations followed by
  \<open>Return\<close> of the text or \<open>Raise\<close> of an \<^verbatim>\<open>Exception\<close> whose \<^verbatim>\<open>str\<close> is the
  message. An engine chooses the script from the task description. A run that never ends
  has no script.
\<close>

datatype agent = OnStep agent | Return string | Raise string

type_synonym engine = "string \<Rightarrow> agent"

datatype py_error = KeyError

section \<open>Strings\<close>

text \<open>Python's \<^verbatim>\<open>str\<close> on a non-negative integer: its decimal digits.\<close>

function str :: "nat \<Rightarrow> string" where
  "str n = (if n < 10 then [''0123456789'' ! n]
            else str (n div 10) @ [''0123456789'' ! (n mod 10)])"
  by pat_completeness auto
termination
  by (relation "measure (\<lambda>n. n)") auto

declare str.simps [simp del]

definition sq :: string where
  "sq = [CHR 0x27]"

definition dq :: string where
  "dq = [CHR 0x22]"

definition nl :: string where
  "nl = [CHR 0x0A]"

section \<open>The step callback and the engine run\<close>

text \<open>
  \<^verbatim>\<open>step_handler\<close> of \<^verbatim>\<open>perform_search\<close>: it increments the enclosing
  \<^verbatim>\<open>step_count\<close>, then sends the informational message and the progress value. The
  counter is threaded through as an argument and returned.
\<close>

definition step_handler :: "Context \<Rightarrow> nat \<Rightarrow> nat \<times> effect list" where
  "step_handler ctx step_count =
     (let step_count = step_count + 1
      in (step_count,
          [Send ctx (Info (''Step '' @ str step_count @ '' completed'')),
           Send ctx (Progress step_count)]))"

text \<open>\<^verbatim>\<open>step_handler\<close> of \<^verbatim>\<open>perform_order\<close>.\<close>

definition order_step_handler :: "Context \<Rightarrow> nat \<Rightarrow> nat \<times> effect list" where
  "order_step_handler ctx step_count =
     (let step_count = step_count + 1
      in (step_count,
          [Send ctx (Info (''Order step '' @ str step_count @ '' completed'')),
           Send ctx (Progress step_count)]))"

text \<open>
  Running a script against a callback: the result (\<open>Inl\<close> the message of the raised
  exception, \<open>Inr\<close> the returned text), the final counter and the effects of the callbacks.
\<close>

fun run_agent :: "agent \<Rightarrow> (nat \<Rightarrow> nat \<times> effect list) \<Rightarrow> nat \<Rightarrow> (string + string) \<times> nat \<times> effect list" where
  "run_agent (Return r) on_step c = (Inr r, c, [])"
| "run_agent (Raise m) on_step c = (Inl m, c, [])"
| "run_agent (OnStep k) on_step c =
     (case on_step c of (c', es) \<Rightarrow>
        (case run_agent k on_step c' of (res, c'', es') \<Rightarrow> (res, c'', es @ es')))"

definition run_browser_agent :: "engine \<Rightarrow> string \<Rightarrow> (nat \<Rightarrow> nat \<times> effect list) \<Rightarrow> nat \<Rightarrow> (string + string) \<times> nat \<times> effect list" where
  "run_browser_agent eng task on_step c = run_agent (eng task) on_step c"

section \<open>Dispatchers and task runners\<close>

definition search_task :: "string \<Rightarrow> string" where
  "search_task search_term =
     nl @ ''0. Start by going to: https://www.ubereats.com'' @ nl
     @ ''1. Type '' @ dq @ search_term @ dq @ '' in the global search bar and press enter'' @ nl
     @ ''2. Go to the first search result (this is the most popular restaurant).'' @ nl
     @ ''3. When you can see the menu options for the resturant, we need to use the specific search input for the resturant located under the banned (identify it by the placeholder ''
     @ dq @ ''Search in [restaurant name]'' @ dq @ nl
     @ ''4. Click the input field and type '' @ dq @ search_term @ dq @ '', then press enter'' @ nl
     @ ''5. Check for menu options related to '' @ dq @ search_term @ dq @ nl
     @ ''6. Get the name, url and price of the top 3 items related to '' @ dq @ search_term @ dq
     @ ''. URL is very important'' @ nl"

definition pending_message :: "string \<Rightarrow> string" where
  "pending_message search_term =
     ''Search for '' @ sq @ search_term @ sq @ '' in progress. Check back in 30 seconds''"

definition search_acknowledgement :: "string \<Rightarrow> string \<Rightarrow> string" where
  "search_acknowledgement search_term rid =
     ''Search for '' @ sq @ search_term @ sq
     @ '' started. Please wait for 3 minutes, then you can retrieve results using the resource URI: resource://search_results/''
     @ rid @ ''. Use a terminal sleep statement to wait for 2 minutes.''"

text \<open>
  \<^verbatim>\<open>find_menu_options\<close>: the returned string and the effects, in the order of the
  statements. The coroutine awaits nothing.
\<close>

definition find_menu_options :: "string \<Rightarrow> Context \<Rightarrow> string \<times> effect list" where
  "find_menu_options search_term ctx =
     (let task = search_task search_term
      in (search_acknowledgement search_term (request_id ctx),
          [StoreWrite (request_id ctx) (pending_message search_term),
           CreateTask (PerformSearch (request_id ctx) search_term task ctx)]))"

text \<open>
  \<^verbatim>\<open>perform_search\<close>: the \<^verbatim>\<open>try\<close> body runs the engine with a counter starting at 0
  and stores the result; the \<^verbatim>\<open>except Exception\<close> branch stores the error and sends
  the error notification.
\<close>

definition perform_search :: "engine \<Rightarrow> string \<Rightarrow> string \<Rightarrow> string \<Rightarrow> Context \<Rightarrow> effect list" where
  "perform_search eng rid search_term task ctx =
     (case run_browser_agent eng task (step_handler ctx) 0 of
        (Inr result, _, es) \<Rightarrow> es @ [StoreWrite rid result]
      | (Inl e, _, es) \<Rightarrow>
          es @ [StoreWrite rid (''Error: '' @ e),
                Send ctx (Error (''Error searching for '' @ sq @ search_term @ sq @ '': '' @ e))])"

definition order_task :: "string \<Rightarrow> string" where
  "order_task item_url =
     nl @ ''1. Go to '' @ item_url @ nl
     @ ''2. Click '' @ dq @ ''Add to order'' @ dq @ nl
     @ ''3. Wait 3 seconds'' @ nl
     @ ''4. Click '' @ dq @ ''Go to checkout'' @ dq @ nl
     @ ''5. If there are upsell modals, click '' @ dq @ ''Skip'' @ dq @ nl
     @ ''6. Click '' @ dq @ ''Place order'' @ dq @ nl"

definition order_acknowledgement :: "string \<Rightarrow> string" where
  "order_acknowledgement item_name =
     ''Order for '' @ sq @ item_name @ sq @ '' started. Your order is being processed.''"

definition order_food :: "string \<Rightarrow> string \<Rightarrow> Context \<Rightarrow> string \<times> effect list" where
  "order_food item_url item_name ctx =
     (let task = order_task item_url
      in (order_acknowledgement item_name,
          [CreateTask (PerformOrder item_url item_name task ctx)]))"

text \<open>
  \<^verbatim>\<open>perform_order\<close>: the value the coroutine returns and its effects.
\<close>

definition perform_order :: "engine \<Rightarrow> string \<Rightarrow> string \<Rightarrow> string \<Rightarrow> Context \<Rightarrow> string \<times> effect list" where
  "perform_order eng restaurant_url item_name task ctx =
     (case run_browser_agent eng task (order_step_handler ctx) 0 of
        (Inr result, _, es) \<Rightarrow>
          (result,
           es @ [Send ctx (Info (''Order for '' @ sq @ item_name @ sq @ '' has been placed successfully!''))])
      | (Inl e, _, es) \<Rightarrow>
          (let error_msg = ''Error ordering '' @ sq @ item_name @ sq @ '': '' @ e
           in (error_msg, es @ [Send ctx (Error error_msg)])))"

section \<open>Retrieval\<close>

text \<open>
  The membership test and the subscript are kept apart: the subscript of a missing key
  raises \<^verbatim>\<open>KeyError\<close>.
\<close>

definition subscript :: "(string \<rightharpoonup> string) \<Rightarrow> string \<Rightarrow> py_error + string" where
  "subscript d k = (case d k of None \<Rightarrow> Inl KeyError | Some v \<Rightarrow> Inr v)"

definition get_search_results :: "(string \<rightharpoonup> string) \<Rightarrow> string \<Rightarrow> py_error + string" where
  "get_search_results d rid =
     (if d rid = None then Inr (''No search results found for request ID: '' @ rid)
      else subscript d rid)"

definition get_search_results_by_id :: "(string \<rightharpoonup> string) \<Rightarrow> string \<Rightarrow> py_error + string" where
  "get_search_results_by_id d rid =
     (if d rid = None
      then Inr (''No search results found for request ID: '' @ rid
                @ ''. Perhaps you need to wait for 2 more minutes before retrieving results, if you already have retried, then the search may have failed.'')
      else subscript d rid)"

text \<open>The source defines \<^verbatim>\<open>get_all_search_results\<close> twice, with the same body.\<close>

definition get_all_search_results :: "(string \<rightharpoonup> string) \<Rightarrow> (string \<rightharpoonup> string)" where
  "get_all_search_results d = d"

section \<open>The server as a transition system\<close>

text \<open>
  The state of the process: the dictionary, the tasks created and not yet run by the event
  loop, and the notifications sent so far.
\<close>

record server =
  search_results :: "string \<rightharpoonup> string"
  scheduled :: "background list"
  sent :: "(Context \<times> notification) list"

definition initial :: server where
  "initial = \<lparr>search_results = Map.empty, scheduled = [], sent = []\<rparr>"

fun apply_effect :: "server \<Rightarrow> effect \<Rightarrow> server" where
  "apply_effect s (StoreWrite k v) = s\<lparr>search_results := (search_results s)(k \<mapsto> v)\<rparr>"
| "apply_effect s (Send ctx n) = s\<lparr>sent := sent s @ [(ctx, n)]\<rparr>"
| "apply_effect s (CreateTask b) = s\<lparr>scheduled := scheduled s @ [b]\<rparr>"

definition apply_effects :: "server \<Rightarrow> effect list \<Rightarrow> server" where
  "apply_effects s es = foldl apply_effect s es"

fun run_background :: "engine \<Rightarrow> background \<Rightarrow> effect list" where
  "run_background eng (PerformSearch rid search_term task ctx) =
     perform_search eng rid search_term task ctx"
| "run_background eng (PerformOrder restaurant_url item_name task ctx) =
     snd (perform_order eng restaurant_url item_name task ctx)"

text \<open>
  What happens in the process: a call of one of the five operations, or the event loop
  running the \<open>i\<close>-th scheduled task to its end against an engine. Tasks may end in any
  order. The retrievals only read.

  A dispatcher contains no \<^verbatim>\<open>await\<close>, so its effects happen together. A runner is
  suspended while the engine works; its only assignment to the dictionary follows the end
  of the engine with no \<^verbatim>\<open>await\<close> in between, so the dictionary changes at one moment,
  the one of the \<open>RunTask\<close> event. The notifications of a runner are recorded at that
  moment too, in the order in which the runner sent them. The awaited notification methods
  are taken to return normally.

  \<^verbatim>\<open>check_login_status\<close> and its runner are not registered as operations and never
  touch the dictionary; they are left out.
\<close>

datatype event =
    CallFindMenuOptions string Context
  | CallOrderFood string string Context
  | CallGetSearchResults string
  | CallGetSearchResultsById string
  | CallGetAllSearchResults
  | RunTask nat engine

fun step :: "server \<Rightarrow> event \<Rightarrow> server" where
  "step s (CallFindMenuOptions search_term ctx) =
     apply_effects s (snd (find_menu_options search_term ctx))"
| "step s (CallOrderFood item_url item_name ctx) =
     apply_effects s (snd (order_food item_url item_name ctx))"
| "step s (CallGetSearchResults rid) = s"
| "step s (CallGetSearchResultsById rid) = s"
| "step s CallGetAllSearchResults = s"
| "step s (RunTask i eng) =
     (if i < length (scheduled s)
      then apply_effects (s\<lparr>scheduled := take i (scheduled s) @ drop (Suc i) (scheduled s)\<rparr>)
             (run_background eng (scheduled s ! i))
      else s)"

definition run :: "server \<Rightarrow> event list \<Rightarrow> server" where
  "run s evs = foldl step s evs"

section \<open>Observations\<close>

text \<open>
  What a list of effects did to the dictionary, to the side channel and to the event loop,
  each in program order.
\<close>

fun store_writes :: "effect list \<Rightarrow> (string \<times> string) list" where
  "store_writes [] = []"
| "store_writes (StoreWrite k v # es) = (k, v) # store_writes es"
| "store_writes (Send ctx n # es) = store_writes es"
| "store_writes (CreateTask b # es) = store_writes es"

fun notifications :: "effect list \<Rightarrow> (Context \<times> notification) list" where
  "notifications [] = []"
| "notifications (StoreWrite k v # es) = notifications es"
| "notifications (Send ctx n # es) = (ctx, n) # notifications es"
| "notifications (CreateTask b # es) = notifications es"

fun created_tasks :: "effect list \<Rightarrow> background list" where
  "created_tasks [] = []"
| "created_tasks (StoreWrite k v # es) = created_tasks es"
| "created_tasks (Send ctx n # es) = created_tasks es"
| "created_tasks (CreateTask b # es) = b # created_tasks es"

text \<open>The progress values and the informational messages among the notifications.\<close>

fun progress_values :: "effect list \<Rightarrow> nat list" where
  "progress_values [] = []"
| "progress_values (Send ctx (Progress k) # es) = k # progress_values es"
| "progress_values (e # es) = progress_values es"

fun info_messages :: "effect list \<Rightarrow> string list" where
  "info_messages [] = []"
| "info_messages (Send ctx (Info m) # es) = m # info_messages es"
| "info_messages (e # es) = info_messages es"

text \<open>
  How often a script invokes the callback, and how it ends: \<open>Inr\<close> the returned text,
  \<open>Inl\<close> the message of the raised exception.
\<close>

fun agent_steps :: "agent \<Rightarrow> nat" where
  "agent_steps (OnStep k) = Suc (agent_steps k)"
| "agent_steps (Return r) = 0"
| "agent_steps (Raise m) = 0"

fun agent_result :: "agent \<Rightarrow> string + string" where
  "agent_result (OnStep k) = agent_result k"
| "agent_result (Return r) = Inr r"
| "agent_result (Raise m) = Inl m"

text \<open>The two notifications of the \<open>k\<close>-th callback, for a message format \<open>msg\<close>.\<close>

definition step_effects :: "(nat \<Rightarrow> string) \<Rightarrow> Context \<Rightarrow> nat \<Rightarrow> effect list" where
  "step_effects msg ctx k = [Send ctx (Info (msg k)), Send ctx (Progress k)]"

text \<open>
  The string \<^verbatim>\<open>perform_search\<close> stores for an engine result: the text itself, or
  \<^verbatim>\<open>Error: \<close> followed by the message.
\<close>

definition stored_outcome :: "string + string \<Rightarrow> string" where
  "stored_outcome r = (case r of Inr result \<Rightarrow> result | Inl e \<Rightarrow> ''Error: '' @ e)"

text \<open>
  The identity a scheduled runner writes under (only \<^verbatim>\<open>perform_search\<close> receives one),
  and the task description it passes to the engine.
\<close>

fun search_id :: "background \<Rightarrow> string option" where
  "search_id (PerformSearch rid search_term task ctx) = Some rid"
| "search_id (PerformOrder restaurant_url item_name task ctx) = None"

fun task_of :: "background \<Rightarrow> string" where
  "task_of (PerformSearch rid search_term task ctx) = task"
| "task_of (PerformOrder restaurant_url item_name task ctx) = task"

text \<open>
  The identities an event submits: through \<^verbatim>\<open>find_menu_options\<close> only, or through
  either dispatcher. \<open>times_searched\<close> counts the submissions of one identity through
  \<^verbatim>\<open>find_menu_options\<close>.
\<close>

fun searched_by :: "event \<Rightarrow> string list" where
  "searched_by (CallFindMenuOptions search_term ctx) = [request_id ctx]"
| "searched_by ev = []"

fun submitted_by :: "event \<Rightarrow> string list" where
  "submitted_by (CallFindMenuOptions search_term ctx) = [request_id ctx]"
| "submitted_by (CallOrderFood item_url item_name ctx) = [request_id ctx]"
| "submitted_by ev = []"

definition searched :: "event list \<Rightarrow> string set" where
  "searched evs = set (concat (map searched_by evs))"

definition submitted :: "event list \<Rightarrow> string set" where
  "submitted evs = set (concat (map submitted_by evs))"


text \<open>Assignments to the dictionary, one after the other.\<close>

definition write_all :: "(string \<rightharpoonup> string) \<Rightarrow> (string \<times> string) list \<Rightarrow> (string \<rightharpoonup> string)" where
  "write_all d ws = foldl (\<lambda>m (k, v). m(k \<mapsto> v)) d ws"

text \<open>
  Two facts about the scheduled runners of a state: every identity a scheduled runner will
  write under is already a key, and the number of scheduled runners of one identity.
\<close>

definition runners_known :: "server \<Rightarrow> bool" where
  "runners_known s = (\<forall>b\<in>set (scheduled s). \<forall>rid. search_id b = Some rid \<longrightarrow> rid \<in> dom (search_results s))"










text \<open>An engine for tests: five callbacks, then a result.\<close>

definition five_steps :: engine where
  "five_steps task = OnStep (OnStep (OnStep (OnStep (OnStep (Return ''done'')))))"

section \<open>Effects of the runners and of the transitions\<close>

lemma store_writes_append: "store_writes (es @ fs) = store_writes es @ store_writes fs"
  by (induction es rule: store_writes.induct) simp_all


lemma created_tasks_append: "created_tasks (es @ fs) = created_tasks es @ created_tasks fs"
  by (induction es rule: created_tasks.induct) simp_all

lemma progress_values_append: "progress_values (es @ fs) = progress_values es @ progress_values fs"
  by (induction es rule: progress_values.induct) simp_all

lemma info_messages_append: "info_messages (es @ fs) = info_messages es @ info_messages fs"
  by (induction es rule: info_messages.induct) simp_all

lemma run_agent_callbacks:
  assumes "\<And>c. on_step c = (Suc c, step_effects msg ctx (Suc c))"
  shows "run_agent a on_step c =
           (agent_result a, c + agent_steps a,
            concat (map (step_effects msg ctx) [Suc c..<Suc (c + agent_steps a)]))"
proof (induction a arbitrary: c)
  case (OnStep k)
  have "[Suc c..<Suc (c + Suc (agent_steps k))] = Suc c # [Suc (Suc c)..<Suc (Suc c + agent_steps k)]"
    by (simp add: upt_conv_Cons)
  with OnStep [of "Suc c"] show ?case
    by (simp add: assms)
qed simp_all

lemma step_handler_eq:
  "step_handler ctx c = (Suc c, step_effects (\<lambda>k. ''Step '' @ str k @ '' completed'') ctx (Suc c))"
  by (simp add: step_handler_def step_effects_def)

lemma order_step_handler_eq:
  "order_step_handler ctx c = (Suc c, step_effects (\<lambda>k. ''Order step '' @ str k @ '' completed'') ctx (Suc c))"
  by (simp add: order_step_handler_def step_effects_def)

lemma store_writes_steps: "store_writes (concat (map (step_effects msg ctx) ks)) = []"
  by (induction ks) (simp_all add: step_effects_def)

lemma created_tasks_steps: "created_tasks (concat (map (step_effects msg ctx) ks)) = []"
  by (induction ks) (simp_all add: step_effects_def)

lemma progress_values_steps: "progress_values (concat (map (step_effects msg ctx) ks)) = ks"
  by (induction ks) (simp_all add: step_effects_def)

lemma info_messages_steps: "info_messages (concat (map (step_effects msg ctx) ks)) = map msg ks"
  by (induction ks) (simp_all add: step_effects_def)

lemma perform_search_eq:
  "perform_search eng rid search_term task ctx =
     concat (map (step_effects (\<lambda>k. ''Step '' @ str k @ '' completed'') ctx) [1..<Suc (agent_steps (eng task))])
     @ (case agent_result (eng task) of
          Inr result \<Rightarrow> [StoreWrite rid result]
        | Inl e \<Rightarrow> [StoreWrite rid (''Error: '' @ e),
                   Send ctx (Error (''Error searching for '' @ sq @ search_term @ sq @ '': '' @ e))])"
  by (simp add: perform_search_def run_browser_agent_def
      run_agent_callbacks [OF step_handler_eq] split: sum.splits)

lemma perform_order_eq:
  "perform_order eng restaurant_url item_name task ctx =
     (case agent_result (eng task) of
        Inr result \<Rightarrow>
          (result,
           concat (map (step_effects (\<lambda>k. ''Order step '' @ str k @ '' completed'') ctx) [1..<Suc (agent_steps (eng task))])
           @ [Send ctx (Info (''Order for '' @ sq @ item_name @ sq @ '' has been placed successfully!''))])
      | Inl e \<Rightarrow>
          (''Error ordering '' @ sq @ item_name @ sq @ '': '' @ e,
           concat (map (step_effects (\<lambda>k. ''Order step '' @ str k @ '' completed'') ctx) [1..<Suc (agent_steps (eng task))])
           @ [Send ctx (Error (''Error ordering '' @ sq @ item_name @ sq @ '': '' @ e))]))"
  by (simp add: perform_order_def run_browser_agent_def Let_def
      run_agent_callbacks [OF order_step_handler_eq] split: sum.splits)

lemma apply_effects_Nil: "apply_effects s [] = s"
  by (simp add: apply_effects_def)

lemma apply_effects_Cons: "apply_effects s (e # es) = apply_effects (apply_effect s e) es"
  by (simp add: apply_effects_def)

lemma search_results_apply_effects:
  "search_results (apply_effects s es) = write_all (search_results s) (store_writes es)"
proof (induction es arbitrary: s)
  case Nil
  show ?case by (simp add: apply_effects_Nil write_all_def)
next
  case (Cons e es)
  show ?case
    by (cases e) (simp_all add: apply_effects_Cons Cons.IH write_all_def fun_upd_def)
qed

lemma scheduled_apply_effects:
  "scheduled (apply_effects s es) = scheduled s @ created_tasks es"
proof (induction es arbitrary: s)
  case Nil
  show ?case by (simp add: apply_effects_Nil)
next
  case (Cons e es)
  show ?case
    by (cases e) (simp_all add: apply_effects_Cons Cons.IH)
qed

lemma sent_apply_effects:
  "sent (apply_effects s es) = sent s @ notifications es"
proof (induction es arbitrary: s)
  case Nil
  show ?case by (simp add: apply_effects_Nil)
next
  case (Cons e es)
  show ?case
    by (cases e) (simp_all add: apply_effects_Cons Cons.IH)
qed

lemma store_writes_perform_search:
  "store_writes (perform_search eng rid search_term task ctx) =
     [(rid, stored_outcome (agent_result (eng task)))]"
  by (simp add: perform_search_eq store_writes_append store_writes_steps stored_outcome_def
      split: sum.splits)

lemma store_writes_perform_order:
  "store_writes (snd (perform_order eng restaurant_url item_name task ctx)) = []"
  by (simp add: perform_order_eq store_writes_append store_writes_steps split: sum.splits)

lemma created_tasks_perform_search:
  "created_tasks (perform_search eng rid search_term task ctx) = []"
  by (simp add: perform_search_eq created_tasks_append created_tasks_steps split: sum.splits)

lemma created_tasks_perform_order:
  "created_tasks (snd (perform_order eng restaurant_url item_name task ctx)) = []"
  by (simp add: perform_order_eq created_tasks_append created_tasks_steps split: sum.splits)

lemma store_writes_run_background:
  "store_writes (run_background eng b) =
     (case search_id b of
        Some rid \<Rightarrow> [(rid, stored_outcome (agent_result (eng (task_of b))))]
      | None \<Rightarrow> [])"
  by (cases b) (simp_all add: store_writes_perform_search store_writes_perform_order)

lemma created_tasks_run_background: "created_tasks (run_background eng b) = []"
  by (cases b) (simp_all add: created_tasks_perform_search created_tasks_perform_order)

lemma search_results_RunTask:
  assumes "i < length (scheduled s)"
  shows "search_results (step s (RunTask i eng)) =
           (case search_id (scheduled s ! i) of
              Some rid \<Rightarrow> (search_results s)(rid \<mapsto> stored_outcome (agent_result (eng (task_of (scheduled s ! i)))))
            | None \<Rightarrow> search_results s)"
  using assms
  by (simp add: search_results_apply_effects store_writes_run_background write_all_def
      split: option.splits)

lemma scheduled_RunTask:
  assumes "i < length (scheduled s)"
  shows "scheduled (step s (RunTask i eng)) = take i (scheduled s) @ drop (Suc i) (scheduled s)"
  using assms by (simp add: scheduled_apply_effects created_tasks_run_background)

lemma search_results_find_menu_options:
  "search_results (step s (CallFindMenuOptions search_term ctx)) =
     (search_results s)(request_id ctx \<mapsto> pending_message search_term)"
  by (simp add: find_menu_options_def search_results_apply_effects write_all_def)

lemma scheduled_find_menu_options:
  "scheduled (step s (CallFindMenuOptions search_term ctx)) =
     scheduled s @ [PerformSearch (request_id ctx) search_term (search_task search_term) ctx]"
  by (simp add: find_menu_options_def scheduled_apply_effects)

lemma search_results_order_food:
  "search_results (step s (CallOrderFood item_url item_name ctx)) = search_results s"
  by (simp add: order_food_def search_results_apply_effects write_all_def)

lemma scheduled_order_food:
  "scheduled (step s (CallOrderFood item_url item_name ctx)) =
     scheduled s @ [PerformOrder item_url item_name (order_task item_url) ctx]"
  by (simp add: order_food_def scheduled_apply_effects)

lemma set_remove_subset: "set (take i xs @ drop (Suc i) xs) \<subseteq> set xs"
  using set_take_subset [of i xs] set_drop_subset [of "Suc i" xs] by auto


lemma run_Nil: "run s [] = s"
  by (simp add: run_def)

lemma run_Cons: "run s (ev # evs) = run (step s ev) evs"
  by (simp add: run_def)


lemma step_dom:
  assumes "runners_known s"
  shows "dom (search_results (step s ev)) = dom (search_results s) \<union> set (searched_by ev)
         \<and> runners_known (step s ev)"
proof (cases ev)
  case (CallFindMenuOptions search_term ctx)
  with assms show ?thesis
    by (auto simp add: runners_known_def search_results_find_menu_options
        scheduled_find_menu_options simp del: step.simps)
next
  case (CallOrderFood item_url item_name ctx)
  with assms show ?thesis
    by (auto simp add: runners_known_def search_results_order_food scheduled_order_food
        simp del: step.simps)
next
  case (RunTask i eng)
  show ?thesis
  proof (cases "i < length (scheduled s)")
    case True
    then have m: "scheduled s ! i \<in> set (scheduled s)" by simp
    have sub: "set (take i (scheduled s) @ drop (Suc i) (scheduled s)) \<subseteq> set (scheduled s)"
      by (rule set_remove_subset)
    show ?thesis
    proof (cases "search_id (scheduled s ! i)")
      case None
      with True RunTask assms sub show ?thesis
        by (auto simp add: runners_known_def search_results_RunTask scheduled_RunTask
            simp del: step.simps)
    next
      case (Some rid)
      with m assms have "rid \<in> dom (search_results s)"
        by (auto simp add: runners_known_def)
      with Some True RunTask assms sub show ?thesis
        by (auto simp add: runners_known_def search_results_RunTask scheduled_RunTask
            simp del: step.simps)
    qed
  next
    case False
    with assms RunTask show ?thesis by simp
  qed
qed (use assms in simp_all)

lemma run_dom:
  assumes "runners_known s"
  shows "dom (search_results (run s evs)) = dom (search_results s) \<union> searched evs"
  using assms
proof (induction evs arbitrary: s)
  case Nil
  show ?case by (simp add: run_Nil searched_def)
next
  case (Cons ev evs)
  from step_dom [OF Cons.prems, of ev]
  have a: "dom (search_results (step s ev)) = dom (search_results s) \<union> set (searched_by ev)"
    and b: "runners_known (step s ev)"
    by blast+
  from Cons.IH [OF b] a show ?case
    by (auto simp add: run_Cons searched_def)
qed

lemma runners_known_initial: "runners_known initial"
  by (simp add: runners_known_def initial_def)

lemma searched_subset_submitted: "searched evs \<subseteq> submitted evs"
proof -
  have "set (searched_by ev) \<subseteq> set (submitted_by ev)" for ev
    by (cases ev) simp_all
  then show ?thesis
    by (auto simp add: searched_def submitted_def)
qed








lemma get_search_results_by_id_stored:
  "d rid = Some v \<Longrightarrow> get_search_results_by_id d rid = Inr v"
  by (simp add: get_search_results_by_id_def subscript_def)

lemma get_search_results_stored:
  "d rid = Some v \<Longrightarrow> get_search_results d rid = Inr v"
  by (simp add: get_search_results_def subscript_def)
















section \<open>The claims\<close>

subsection \<open>C1: the terminal write of a task runner\<close>

text \<open>
  Against claim C1 as stated: a started \<^verbatim>\<open>perform_order\<close> whose engine returns normally
  makes no write to the result store at all, so the number of its writes is not one.
\<close>

theorem order_runner_writes_nothing_counterexample:
  "length (store_writes (run_background (\<lambda>task. Return ''done'')
      (PerformOrder ''u'' ''pizza'' (order_task ''u'') \<lparr>request_id = ''1''\<rparr>))) \<noteq> 1"
  by (simp add: perform_order_def run_browser_agent_def)

text \<open>
  Claim C1, amended: every execution of \<^verbatim>\<open>perform_search\<close> makes exactly one write to the
  result store, under the identity it was started with, on the path where the engine returns
  and on the path where it raises; the value written is the result text or \<^verbatim>\<open>Error: \<close>
  followed by the message, so when the event loop has run a scheduled search runner the entry
  of its identity holds that outcome. \<^verbatim>\<open>perform_order\<close> writes nothing to the store.
\<close>

theorem perform_search_writes_once:
  "store_writes (perform_search eng rid search_term task ctx) =
     [(rid, stored_outcome (agent_result (eng task)))]
   \<and> (i < length (scheduled s) \<and> scheduled s ! i = PerformSearch rid search_term task ctx \<longrightarrow>
        search_results (step s (RunTask i eng)) rid = Some (stored_outcome (agent_result (eng task))))
   \<and> store_writes (snd (perform_order eng restaurant_url item_name task ctx)) = []"
proof -
  have "search_results (step s (RunTask i eng)) rid = Some (stored_outcome (agent_result (eng task)))"
    if "i < length (scheduled s)" and "scheduled s ! i = PerformSearch rid search_term task ctx"
    using that by (simp add: search_results_RunTask del: step.simps)
  then show ?thesis
    by (simp only: store_writes_perform_search store_writes_perform_order) blast
qed

text \<open>
A search is dispatched from the initial state and its runner fails after one step.
\<close>

theorem perform_search_writes_once_witness:
  "(0::nat) < length (scheduled (step initial (CallFindMenuOptions ''pizza'' \<lparr>request_id = ''1''\<rparr>)))
   \<and> scheduled (step initial (CallFindMenuOptions ''pizza'' \<lparr>request_id = ''1''\<rparr>)) ! 0 =
       PerformSearch ''1'' ''pizza'' (search_task ''pizza'') \<lparr>request_id = ''1''\<rparr>
   \<and> search_results (step (step initial (CallFindMenuOptions ''pizza'' \<lparr>request_id = ''1''\<rparr>))
         (RunTask 0 (\<lambda>task. OnStep (Raise ''timeout'')))) ''1'' = Some ''Error: timeout''"
  using perform_search_writes_once [of "\<lambda>task. OnStep (Raise ''timeout'')" "''1''" "''pizza''"
      "search_task ''pizza''" "\<lparr>request_id = ''1''\<rparr>" 0
      "step initial (CallFindMenuOptions ''pizza'' \<lparr>request_id = ''1''\<rparr>)"]
  by (simp add: scheduled_find_menu_options stored_outcome_def initial_def del: step.simps)

subsection \<open>C2: pending before scheduling\<close>

text \<open>
  Against claim C2 as stated: after \<^verbatim>\<open>order_food\<close> is dispatched under identity
  \<^verbatim>\<open>1\<close> from the initial state, a retrieval for \<^verbatim>\<open>1\<close> yields the unknown-identity
  response.
\<close>

theorem order_food_no_pending_counterexample:
  "get_search_results_by_id
     (search_results (step initial (CallOrderFood ''u'' ''pizza'' \<lparr>request_id = ''1''\<rparr>))) ''1'' =
   Inr (''No search results found for request ID: '' @ ''1''
        @ ''. Perhaps you need to wait for 2 more minutes before retrieving results, if you already have retried, then the search may have failed.'')"
  by (simp add: search_results_order_food get_search_results_by_id_def initial_def
      del: step.simps)

text \<open>
  Claim C2, amended: \<^verbatim>\<open>find_menu_options\<close> first writes the pending message under the
  request identity and only then creates the task of \<^verbatim>\<open>perform_search\<close>; in the state
  right after the dispatch both retrievals return the pending message for that identity, and
  the pending message is never an unknown-identity response. \<^verbatim>\<open>order_food\<close> only creates
  its task and leaves the store as it was.
\<close>

theorem find_menu_options_pending_first:
  "snd (find_menu_options search_term ctx) =
     [StoreWrite (request_id ctx) (pending_message search_term),
      CreateTask (PerformSearch (request_id ctx) search_term (search_task search_term) ctx)]
   \<and> get_search_results_by_id
        (search_results (step s (CallFindMenuOptions search_term ctx))) (request_id ctx) =
       Inr (pending_message search_term)
   \<and> get_search_results
        (search_results (step s (CallFindMenuOptions search_term ctx))) (request_id ctx) =
       Inr (pending_message search_term)
   \<and> get_search_results_by_id Map.empty rid \<noteq> Inr (pending_message search_term)
   \<and> get_search_results Map.empty rid \<noteq> Inr (pending_message search_term)
   \<and> snd (order_food item_url item_name ctx) =
       [CreateTask (PerformOrder item_url item_name (order_task item_url) ctx)]
   \<and> search_results (step s (CallOrderFood item_url item_name ctx)) = search_results s"
proof -
  have a: "snd (find_menu_options search_term ctx) =
     [StoreWrite (request_id ctx) (pending_message search_term),
      CreateTask (PerformSearch (request_id ctx) search_term (search_task search_term) ctx)]"
    by (simp add: find_menu_options_def)
  have b: "search_results (step s (CallFindMenuOptions search_term ctx)) (request_id ctx) =
      Some (pending_message search_term)"
    by (simp add: search_results_find_menu_options del: step.simps)
  have c: "get_search_results_by_id Map.empty rid \<noteq> Inr (pending_message search_term)"
    by (simp add: get_search_results_by_id_def pending_message_def)
  have d: "get_search_results Map.empty rid \<noteq> Inr (pending_message search_term)"
    by (simp add: get_search_results_def pending_message_def)
  have e: "snd (order_food item_url item_name ctx) =
       [CreateTask (PerformOrder item_url item_name (order_task item_url) ctx)]"
    by (simp add: order_food_def)
  note f = get_search_results_by_id_stored [of "search_results (step s (CallFindMenuOptions search_term ctx))" "request_id ctx", OF b]
    and g = get_search_results_stored [of "search_results (step s (CallFindMenuOptions search_term ctx))" "request_id ctx", OF b]
    and h = search_results_order_food [of s item_url item_name ctx]
  show ?thesis
    by (intro conjI) (rule a f g c d e h)+
qed

subsection \<open>C3: the keys of the bulk retrieval\<close>




subsection \<open>C4: a failed search\<close>




subsection \<open>C5: the progress values of one run\<close>

text \<open>
  Claim C5: when the engine invokes the step callback \<open>n\<close> times, the counter of the run goes
  from 0 to \<open>n\<close>, the callbacks send, in this order, the message of step \<open>k\<close> and the progress
  value \<open>k\<close> for \<open>k\<close> from 1 to \<open>n\<close>, and so the progress values of
  \<^verbatim>\<open>perform_search\<close> and of \<^verbatim>\<open>perform_order\<close> are the list 1, ..., \<open>n\<close>, with the
  \<open>k\<close>-th step message naming \<open>k\<close>.
\<close>

theorem progress_counts_up:
  "run_browser_agent eng task (step_handler ctx) 0 =
     (agent_result (eng task), agent_steps (eng task),
      concat (map (\<lambda>k. [Send ctx (Info (''Step '' @ str k @ '' completed'')),
                         Send ctx (Progress k)])
                  [1..<Suc (agent_steps (eng task))]))
   \<and> progress_values (perform_search eng rid search_term task ctx) =
       [1..<Suc (agent_steps (eng task))]
   \<and> info_messages (perform_search eng rid search_term task ctx) =
       map (\<lambda>k. ''Step '' @ str k @ '' completed'') [1..<Suc (agent_steps (eng task))]
   \<and> progress_values (snd (perform_order eng restaurant_url item_name task ctx)) =
       [1..<Suc (agent_steps (eng task))]
   \<and> take (agent_steps (eng task))
        (info_messages (snd (perform_order eng restaurant_url item_name task ctx))) =
       map (\<lambda>k. ''Order step '' @ str k @ '' completed'') [1..<Suc (agent_steps (eng task))]"
proof -
  have a: "run_browser_agent eng task (step_handler ctx) 0 =
     (agent_result (eng task), agent_steps (eng task),
      concat (map (\<lambda>k. [Send ctx (Info (''Step '' @ str k @ '' completed'')),
                         Send ctx (Progress k)])
                  [1..<Suc (agent_steps (eng task))]))"
  proof -
    have "step_effects msg ctx = (\<lambda>k. [Send ctx (Info (msg k)), Send ctx (Progress k)])" for msg
      by (rule ext) (simp add: step_effects_def)
    then show ?thesis
      by (simp add: run_browser_agent_def run_agent_callbacks [OF step_handler_eq])
  qed
  have b: "progress_values (perform_search eng rid search_term task ctx) =
       [1..<Suc (agent_steps (eng task))]"
    by (simp add: perform_search_eq progress_values_append progress_values_steps
        del: upt_Suc split: sum.splits)
  have c: "info_messages (perform_search eng rid search_term task ctx) =
       map (\<lambda>k. ''Step '' @ str k @ '' completed'') [1..<Suc (agent_steps (eng task))]"
    by (simp add: perform_search_eq info_messages_append info_messages_steps
        del: upt_Suc split: sum.splits)
  have d: "progress_values (snd (perform_order eng restaurant_url item_name task ctx)) =
       [1..<Suc (agent_steps (eng task))]"
    by (simp add: perform_order_eq progress_values_append progress_values_steps
        del: upt_Suc split: sum.splits)
  have e: "take (agent_steps (eng task))
        (info_messages (snd (perform_order eng restaurant_url item_name task ctx))) =
       map (\<lambda>k. ''Order step '' @ str k @ '' completed'') [1..<Suc (agent_steps (eng task))]"
    by (simp add: perform_order_eq info_messages_append info_messages_steps
        del: upt_Suc split: sum.splits)
  show ?thesis
    by (intro conjI) (rule a b c d e)+
qed

text \<open>
An engine that invokes the callback five times yields the steps 1 to 5.
\<close>

theorem progress_counts_up_witness:
  "progress_values (perform_search five_steps ''1'' ''pizza'' (search_task ''pizza'')
      \<lparr>request_id = ''1''\<rparr>) = [1, 2, 3, 4, 5]
   \<and> info_messages (perform_search five_steps ''1'' ''pizza'' (search_task ''pizza'')
      \<lparr>request_id = ''1''\<rparr>) =
     [''Step 1 completed'', ''Step 2 completed'', ''Step 3 completed'',
      ''Step 4 completed'', ''Step 5 completed'']"
proof -
  note t = progress_counts_up [of five_steps "search_task ''pizza''" "\<lparr>request_id = ''1''\<rparr>"
      "''1''" "''pizza''" "''u''" "''pizza''"]
  have n: "[1..<Suc (agent_steps (five_steps (search_task ''pizza'')))] = [1, 2, 3, 4, 5]"
    by (simp add: five_steps_def upt_rec)
  have a: "progress_values (perform_search five_steps ''1'' ''pizza'' (search_task ''pizza'')
      \<lparr>request_id = ''1''\<rparr>) = [1, 2, 3, 4, 5]"
    using conjunct1 [OF conjunct2 [OF t]] by (simp only: n)
  have b: "info_messages (perform_search five_steps ''1'' ''pizza'' (search_task ''pizza'')
      \<lparr>request_id = ''1''\<rparr>) =
     [''Step 1 completed'', ''Step 2 completed'', ''Step 3 completed'',
      ''Step 4 completed'', ''Step 5 completed'']"
    using conjunct1 [OF conjunct2 [OF conjunct2 [OF t]]]
    by (simp only: n) (simp add: str.simps)
  show ?thesis
    by (intro conjI) (rule a b)+
qed

subsection \<open>C6: reading a completed search\<close>




subsection \<open>C7: an identity never submitted\<close>

text \<open>
  Claim C7: after every sequence of events from the initial state, for an identity that no
  dispatch has submitted, both retrievals return normally with their unknown-identity message,
  which differs from every pending message and from every stored error message.
\<close>

theorem unknown_identity_response:
  assumes "rid \<notin> submitted evs"
  shows "get_search_results_by_id (search_results (run initial evs)) rid =
          Inr (''No search results found for request ID: '' @ rid
               @ ''. Perhaps you need to wait for 2 more minutes before retrieving results, if you already have retried, then the search may have failed.'')
    \<and> get_search_results (search_results (run initial evs)) rid =
          Inr (''No search results found for request ID: '' @ rid)
    \<and> get_search_results_by_id (search_results (run initial evs)) rid \<noteq> Inr (pending_message search_term)
    \<and> get_search_results (search_results (run initial evs)) rid \<noteq> Inr (pending_message search_term)
    \<and> get_search_results_by_id (search_results (run initial evs)) rid \<noteq> Inr (''Error: '' @ e)
    \<and> get_search_results (search_results (run initial evs)) rid \<noteq> Inr (''Error: '' @ e)"
proof -
  let ?d = "search_results (run initial evs)"
  have "dom ?d = searched evs"
    using run_dom [OF runners_known_initial, of evs] by (simp add: initial_def)
  with assms searched_subset_submitted [of evs] have "rid \<notin> dom ?d"
    by (simp only: subset_iff) blast
  then have none: "?d rid = None"
    by (simp only: domIff simp_thms)
  have a: "get_search_results_by_id ?d rid =
          Inr (''No search results found for request ID: '' @ rid
               @ ''. Perhaps you need to wait for 2 more minutes before retrieving results, if you already have retried, then the search may have failed.'')"
    by (simp add: get_search_results_by_id_def none)
  have b: "get_search_results ?d rid = Inr (''No search results found for request ID: '' @ rid)"
    by (simp add: get_search_results_def none)
  have c: "get_search_results_by_id ?d rid \<noteq> Inr (pending_message search_term)"
    by (simp add: get_search_results_by_id_def none pending_message_def)
  have d: "get_search_results ?d rid \<noteq> Inr (pending_message search_term)"
    by (simp add: get_search_results_def none pending_message_def)
  have f: "get_search_results_by_id ?d rid \<noteq> Inr (''Error: '' @ e)"
    by (simp add: get_search_results_by_id_def none)
  have g: "get_search_results ?d rid \<noteq> Inr (''Error: '' @ e)"
    by (simp add: get_search_results_def none)
  show ?thesis
    by (intro conjI) (rule a b c d f g)+
qed

text \<open>
Identity \<^verbatim>\<open>3\<close> after a search under \<^verbatim>\<open>1\<close> and an order under \<^verbatim>\<open>2\<close>.
\<close>

theorem unknown_identity_response_witness:
  "''3'' \<notin> submitted [CallFindMenuOptions ''pizza'' \<lparr>request_id = ''1''\<rparr>,
                        CallOrderFood ''u'' ''pizza'' \<lparr>request_id = ''2''\<rparr>,
                        RunTask 0 (\<lambda>task. Return ''margherita'')]
   \<and> get_search_results (search_results (run initial
        [CallFindMenuOptions ''pizza'' \<lparr>request_id = ''1''\<rparr>,
         CallOrderFood ''u'' ''pizza'' \<lparr>request_id = ''2''\<rparr>,
         RunTask 0 (\<lambda>task. Return ''margherita'')])) ''3'' =
       Inr ''No search results found for request ID: 3''"
proof -
  let ?evs = "[CallFindMenuOptions ''pizza'' \<lparr>request_id = ''1''\<rparr>,
               CallOrderFood ''u'' ''pizza'' \<lparr>request_id = ''2''\<rparr>,
               RunTask 0 (\<lambda>task. Return ''margherita'')]"
  have h: "''3'' \<notin> submitted ?evs"
    by (simp add: submitted_def)
  note t = unknown_identity_response [of "''3''" ?evs, OF h]
  have "get_search_results (search_results (run initial ?evs)) ''3'' =
          Inr (''No search results found for request ID: '' @ ''3'')"
    by (rule conjunct1 [OF conjunct2 [OF t]])
  then have r: "get_search_results (search_results (run initial ?evs)) ''3'' =
          Inr ''No search results found for request ID: 3''"
    by simp
  show ?thesis
    by (intro conjI) (rule h r)+
qed

subsection \<open>C8: the two retrievals\<close>

text \<open>
  Against claim C8 as stated: on the empty store the resource retrieval and
  \<^verbatim>\<open>get_search_results_by_id\<close> return different strings for identity \<^verbatim>\<open>1\<close>.
\<close>

theorem retrievals_differ_counterexample:
  "get_search_results Map.empty ''1'' \<noteq> get_search_results_by_id Map.empty ''1''"
  by (simp add: get_search_results_def get_search_results_by_id_def)

text \<open>
  Claim C8, amended: for every identity that is a key of the store, the resource retrieval
  returns the same string as \<^verbatim>\<open>get_search_results_by_id\<close>; for an identity that is not a
  key, each returns its own unknown-identity message, the tool's being the resource's followed
  by a hint to wait and retry.
\<close>

theorem retrievals_agree_on_stored:
  "(d rid \<noteq> None \<longrightarrow> get_search_results d rid = get_search_results_by_id d rid)
   \<and> (d rid = None \<longrightarrow>
        get_search_results d rid = Inr (''No search results found for request ID: '' @ rid)
        \<and> get_search_results_by_id d rid =
            Inr (''No search results found for request ID: '' @ rid
                 @ ''. Perhaps you need to wait for 2 more minutes before retrieving results, if you already have retried, then the search may have failed.''))"
  by (simp add: get_search_results_def get_search_results_by_id_def)

text \<open>
A store with the single key \<^verbatim>\<open>1\<close>, read at \<^verbatim>\<open>1\<close> and at \<^verbatim>\<open>2\<close>.
\<close>

theorem retrievals_agree_on_stored_witness:
  "[''1'' \<mapsto> ''margherita''] ''1'' \<noteq> None
   \<and> get_search_results [''1'' \<mapsto> ''margherita''] ''1'' =
       get_search_results_by_id [''1'' \<mapsto> ''margherita''] ''1''
   \<and> [''1'' \<mapsto> ''margherita''] ''2'' = None
   \<and> get_search_results [''1'' \<mapsto> ''margherita''] ''2'' =
       Inr ''No search results found for request ID: 2''"
proof -
  let ?d = "[''1'' \<mapsto> ''margherita'']"
  have h1: "?d ''1'' \<noteq> None" by simp
  have h2: "?d ''2'' = None" by simp
  note t1 = retrievals_agree_on_stored [of ?d "''1''"]
  note t2 = retrievals_agree_on_stored [of ?d "''2''"]
  have a: "get_search_results ?d ''1'' = get_search_results_by_id ?d ''1''"
    by (rule mp [OF conjunct1 [OF t1] h1])
  have "get_search_results ?d ''2'' = Inr (''No search results found for request ID: '' @ ''2'')"
    by (rule conjunct1 [OF mp [OF conjunct2 [OF t2] h2]])
  then have b: "get_search_results ?d ''2'' = Inr ''No search results found for request ID: 2''"
    by simp
  show ?thesis
    by (intro conjI) (rule h1 a h2 b)+
qed

subsection \<open>C9: the dispatchers do not wait for the engine\<close>

text \<open>
  Claim C9: each dispatcher returns its acknowledgement in a state where its runner is the
  last scheduled task and has not run: nothing has been sent on the side channel, the entry of
  a search is still the pending message, and an order has left the store as it was. The
  acknowledgement and that state do not depend on any engine.
\<close>

theorem dispatch_returns_before_run:
  "fst (find_menu_options search_term ctx) = search_acknowledgement search_term (request_id ctx)
   \<and> scheduled (step s (CallFindMenuOptions search_term ctx)) =
       scheduled s @ [PerformSearch (request_id ctx) search_term (search_task search_term) ctx]
   \<and> sent (step s (CallFindMenuOptions search_term ctx)) = sent s
   \<and> search_results (step s (CallFindMenuOptions search_term ctx)) (request_id ctx) =
       Some (pending_message search_term)
   \<and> fst (order_food item_url item_name ctx) = order_acknowledgement item_name
   \<and> scheduled (step s (CallOrderFood item_url item_name ctx)) =
       scheduled s @ [PerformOrder item_url item_name (order_task item_url) ctx]
   \<and> sent (step s (CallOrderFood item_url item_name ctx)) = sent s
   \<and> search_results (step s (CallOrderFood item_url item_name ctx)) = search_results s"
proof -
  have a: "fst (find_menu_options search_term ctx) =
      search_acknowledgement search_term (request_id ctx)"
    by (simp add: find_menu_options_def)
  have b: "sent (step s (CallFindMenuOptions search_term ctx)) = sent s"
    by (simp add: find_menu_options_def sent_apply_effects)
  have c: "search_results (step s (CallFindMenuOptions search_term ctx)) (request_id ctx) =
       Some (pending_message search_term)"
    by (simp add: search_results_find_menu_options del: step.simps)
  have d: "fst (order_food item_url item_name ctx) = order_acknowledgement item_name"
    by (simp add: order_food_def)
  have e: "sent (step s (CallOrderFood item_url item_name ctx)) = sent s"
    by (simp add: order_food_def sent_apply_effects)
  show ?thesis
    by (intro conjI)
      (rule a scheduled_find_menu_options b c d scheduled_order_food e search_results_order_food)+
qed

subsection \<open>C10: orders never reach the store\<close>

text \<open>
  Claim C10: the dispatch of \<^verbatim>\<open>order_food\<close> and the execution of \<^verbatim>\<open>perform_order\<close>
  leave the result store unchanged. \<^verbatim>\<open>perform_order\<close> returns the engine's result text, or
  the error message, as the value of its coroutine and writes nothing, so every retrieval
  returns after the run of an order runner what it returned before.
\<close>

theorem order_leaves_store_unchanged:
  "search_results (step s (CallOrderFood item_url item_name ctx)) = search_results s
   \<and> store_writes (snd (order_food item_url item_name ctx)) = []
   \<and> store_writes (snd (perform_order eng item_url item_name task ctx)) = []
   \<and> fst (perform_order eng item_url item_name task ctx) =
       (case agent_result (eng task) of
          Inr result \<Rightarrow> result
        | Inl e \<Rightarrow> ''Error ordering '' @ sq @ item_name @ sq @ '': '' @ e)
   \<and> (i < length (scheduled s) \<and> scheduled s ! i = PerformOrder item_url item_name task ctx \<longrightarrow>
        search_results (step s (RunTask i eng)) = search_results s
        \<and> get_search_results_by_id (search_results (step s (RunTask i eng))) rid =
            get_search_results_by_id (search_results s) rid
        \<and> get_search_results (search_results (step s (RunTask i eng))) rid =
            get_search_results (search_results s) rid
        \<and> get_all_search_results (search_results (step s (RunTask i eng))) =
            get_all_search_results (search_results s))"
proof -
  have a: "store_writes (snd (order_food item_url item_name ctx)) = []"
    by (simp add: order_food_def)
  have b: "fst (perform_order eng item_url item_name task ctx) =
       (case agent_result (eng task) of
          Inr result \<Rightarrow> result
        | Inl e \<Rightarrow> ''Error ordering '' @ sq @ item_name @ sq @ '': '' @ e)"
    by (simp add: perform_order_eq split: sum.splits)
  have c: "i < length (scheduled s) \<and> scheduled s ! i = PerformOrder item_url item_name task ctx \<longrightarrow>
        search_results (step s (RunTask i eng)) = search_results s
        \<and> get_search_results_by_id (search_results (step s (RunTask i eng))) rid =
            get_search_results_by_id (search_results s) rid
        \<and> get_search_results (search_results (step s (RunTask i eng))) rid =
            get_search_results (search_results s) rid
        \<and> get_all_search_results (search_results (step s (RunTask i eng))) =
            get_all_search_results (search_results s)"
  proof
    assume h: "i < length (scheduled s) \<and> scheduled s ! i = PerformOrder item_url item_name task ctx"
    then have "search_results (step s (RunTask i eng)) = search_results s"
      by (simp add: search_results_RunTask del: step.simps)
    then show "search_results (step s (RunTask i eng)) = search_results s
        \<and> get_search_results_by_id (search_results (step s (RunTask i eng))) rid =
            get_search_results_by_id (search_results s) rid
        \<and> get_search_results (search_results (step s (RunTask i eng))) rid =
            get_search_results (search_results s) rid
        \<and> get_all_search_results (search_results (step s (RunTask i eng))) =
            get_all_search_results (search_results s)"
      by (simp only: simp_thms)
  qed
  show ?thesis
    by (intro conjI) (rule search_results_order_food a store_writes_perform_order b c)+
qed

text \<open>
An order dispatched from the initial state and run to its end.
\<close>

theorem order_leaves_store_unchanged_witness:
  "(0::nat) < length (scheduled (step initial (CallOrderFood ''u'' ''pizza'' \<lparr>request_id = ''1''\<rparr>)))
   \<and> scheduled (step initial (CallOrderFood ''u'' ''pizza'' \<lparr>request_id = ''1''\<rparr>)) ! 0 =
       PerformOrder ''u'' ''pizza'' (order_task ''u'') \<lparr>request_id = ''1''\<rparr>
   \<and> search_results (step (step initial (CallOrderFood ''u'' ''pizza'' \<lparr>request_id = ''1''\<rparr>))
        (RunTask 0 (\<lambda>task. Return ''ordered''))) = Map.empty"
proof -
  let ?s = "step initial (CallOrderFood ''u'' ''pizza'' \<lparr>request_id = ''1''\<rparr>)"
  have s: "scheduled ?s = [PerformOrder ''u'' ''pizza'' (order_task ''u'') \<lparr>request_id = ''1''\<rparr>]"
    by (simp add: scheduled_order_food initial_def del: step.simps)
  have h1: "0 < length (scheduled ?s)"
    by (simp only: s) simp
  have h2: "scheduled ?s ! 0 = PerformOrder ''u'' ''pizza'' (order_task ''u'') \<lparr>request_id = ''1''\<rparr>"
    by (simp only: s) simp
  note t = order_leaves_store_unchanged [of ?s "''u''" "''pizza''" "\<lparr>request_id = ''1''\<rparr>"
      "\<lambda>task. Return ''ordered''" "order_task ''u''" 0 "''1''"]
  have c: "0 < length (scheduled ?s) \<and> scheduled ?s ! 0 =
      PerformOrder ''u'' ''pizza'' (order_task ''u'') \<lparr>request_id = ''1''\<rparr>"
    by (intro conjI) (rule h1 h2)+
  have "search_results (step ?s (RunTask 0 (\<lambda>task. Return ''ordered''))) = search_results ?s"
    by (rule conjunct1 [OF mp [OF conjunct2 [OF conjunct2 [OF conjunct2 [OF conjunct2 [OF t]]]] c]])
  also have "\<dots> = Map.empty"
    by (simp add: search_results_order_food initial_def del: step.simps)
  finally have r: "search_results (step ?s (RunTask 0 (\<lambda>task. Return ''ordered''))) = Map.empty" .
  show ?thesis
    by (intro conjI) (rule h1 h2 r)+
qed

end
